theory Spec2Isabelle
  imports Main "HOL-Library.Word" "HOL-Library.Signed_Division" "HOL-Library.Sublist"
begin

unbundle bit_operations_syntax

section \<open>Machine integers and strings\<close>

text \<open>
  The C++ \<open>int\<close> of the sources is a 32-bit two's complement integer, \<open>quint64\<close> an
  unsigned 64-bit one. Negation of an \<open>int\<close> wraps around (\<open>- INT_MIN = INT_MIN\<close>),
  division and remainder truncate towards zero.
\<close>

type_synonym int32 = "32 word"
type_synonym quint64 = "64 word"
type_synonym byte = "8 word"

definition int_div :: "int32 \<Rightarrow> int32 \<Rightarrow> int32" where
  "int_div a b = word_of_int (sint a sdiv sint b)"

definition int_mod :: "int32 \<Rightarrow> int32 \<Rightarrow> int32" where
  "int_mod a b = word_of_int (sint a smod sint b)"

text \<open>\<open>qAbs\<close> of QtGlobal: \<^verbatim>\<open>t >= 0 ? t : -t\<close>.\<close>

definition qAbs :: "int32 \<Rightarrow> int32" where
  "qAbs t = (if 0 \<le>s t then t else - t)"

text \<open>The conversions \<^verbatim>\<open>%d\<close> and \<^verbatim>\<open>%02d\<close> of \<open>sprintf\<close>.\<close>

definition digit_char :: "nat \<Rightarrow> char" where
  "digit_char d = char_of (48 + d)"

fun decimal :: "nat \<Rightarrow> string" where
  "decimal n = (if n < 10 then [digit_char n] else decimal (n div 10) @ [digit_char (n mod 10)])"

declare decimal.simps [simp del]

definition sprintf_d :: "int \<Rightarrow> string" where
  "sprintf_d i = (if i < 0 then ''-'' @ decimal (nat (- i)) else decimal (nat i))"

definition sprintf_02d :: "int \<Rightarrow> string" where
  "sprintf_02d i =
     (let sign = (if i < 0 then ''-'' else '''');
          body = decimal (nat \<bar>i\<bar>)
      in sign @ replicate (2 - length sign - length body) (CHR ''0'') @ body)"

section \<open>Utilities::PrettyTime\<close>

definition PrettyTime :: "int32 \<Rightarrow> string" where
  "PrettyTime seconds0 =
     (let seconds = qAbs seconds0;
          hours = int_div seconds (60 * 60);
          minutes = int_mod (int_div seconds 60) 60;
          seconds = int_mod seconds 60
      in if hours \<noteq> 0
         then sprintf_d (sint hours) @ '':'' @ sprintf_02d (sint minutes) @ '':''
                @ sprintf_02d (sint seconds)
         else sprintf_d (sint minutes) @ '':'' @ sprintf_02d (sint seconds))"

section \<open>DoAfter and DoInAMinuteOrSo\<close>

text \<open>
  Modelled from the spec: \<^verbatim>\<open>core/timeconstants.h\<close>, which declares \<open>kMsecPerSec\<close>, is
  not among the sources; it is the number of milliseconds in a second.
\<close>

definition kMsecPerSec :: int where
  "kMsecPerSec = 1000"

text \<open>
  \<open>QTimer::singleShot\<close> registers a one-shot timer with the event loop. The event loop
  is the list of the registered timers; a receiver is an object identity, a slot the
  name of the member to call.
\<close>

record single_shot =
  msec :: int
  receiver :: nat
  slot :: string

type_synonym event_loop = "single_shot list"

definition QTimer_singleShot :: "int \<Rightarrow> nat \<Rightarrow> string \<Rightarrow> event_loop \<Rightarrow> event_loop" where
  "QTimer_singleShot ms rcv slt timers = timers @ [\<lparr>msec = ms, receiver = rcv, slot = slt\<rparr>]"

definition DoAfter :: "nat \<Rightarrow> string \<Rightarrow> int \<Rightarrow> event_loop \<Rightarrow> event_loop" where
  "DoAfter rcv slt ms timers = QTimer_singleShot ms rcv slt timers"

text \<open>
  \<open>qrand()\<close> is the next value of the C library's generator; it is the first argument
  here. The arithmetic is that of \<open>int\<close>: \<open>smod\<close> is the truncating remainder of C++,
  and for every 32-bit \<open>qrand\<close> value the product stays between \<open>1000\<close> and \<open>119000\<close>, so
  no operation wraps around.
\<close>

definition DoInAMinuteOrSo :: "int \<Rightarrow> nat \<Rightarrow> string \<Rightarrow> event_loop \<Rightarrow> event_loop" where
  "DoInAMinuteOrSo qrand rcv slt timers =
     (let ms = (60 + (qrand smod 60)) * kMsecPerSec
      in DoAfter rcv slt ms timers)"

section \<open>Utilities::FileSystemCapacity and Utilities::FileSystemFreeSpace\<close>

text \<open>
  The preprocessor selects one of three bodies. The operating system is a record of the
  platform and of its two queries: \<open>statvfs\<close> gives the filled structure when it returns
  0 and \<open>None\<close> when it fails; \<open>GetDiskFreeSpaceEx\<close> gives the three counters (bytes
  available to the caller, total bytes, total free bytes) when it returns non-zero and
  \<open>None\<close> when it fails.
\<close>

datatype platform = Q_OS_UNIX | Q_OS_WIN32 | Q_OS_OTHER

record statvfs_t =
  f_bsize :: quint64
  f_blocks :: quint64
  f_bavail :: quint64

record operating_system =
  os_platform :: platform
  statvfs :: "string \<Rightarrow> statvfs_t option"
  GetDiskFreeSpaceEx :: "string \<Rightarrow> (quint64 \<times> quint64 \<times> quint64) option"

definition toNativeSeparators :: "string \<Rightarrow> string" where
  "toNativeSeparators p = map (\<lambda>c. if c = CHR ''/'' then CHR 0x5C else c) p"

definition FileSystemCapacity :: "operating_system \<Rightarrow> string \<Rightarrow> quint64" where
  "FileSystemCapacity os path =
     (case os_platform os of
        Q_OS_UNIX \<Rightarrow>
          (case statvfs os path of
             Some fs_info \<Rightarrow> f_blocks fs_info * f_bsize fs_info
           | None \<Rightarrow> 0)
      | Q_OS_WIN32 \<Rightarrow>
          (case GetDiskFreeSpaceEx os (toNativeSeparators path) of
             Some (avail_bytes, total_bytes, free_bytes) \<Rightarrow> total_bytes
           | None \<Rightarrow> 0)
      | Q_OS_OTHER \<Rightarrow> 0)"

definition FileSystemFreeSpace :: "operating_system \<Rightarrow> string \<Rightarrow> quint64" where
  "FileSystemFreeSpace os path =
     (case os_platform os of
        Q_OS_UNIX \<Rightarrow>
          (case statvfs os path of
             Some fs_info \<Rightarrow> f_bavail fs_info * f_bsize fs_info
           | None \<Rightarrow> 0)
      | Q_OS_WIN32 \<Rightarrow>
          (case GetDiskFreeSpaceEx os (toNativeSeparators path) of
             Some (avail_bytes, total_bytes, free_bytes) \<Rightarrow> avail_bytes
           | None \<Rightarrow> 0)
      | Q_OS_OTHER \<Rightarrow> 0)"

text \<open>
  The query of the platform gives no result on a path: it fails, or the platform is
  neither of the two and has none.
\<close>

definition os_query_fails :: "operating_system \<Rightarrow> string \<Rightarrow> bool" where
  "os_query_fails os path =
     (case os_platform os of
        Q_OS_UNIX \<Rightarrow> statvfs os path = None
      | Q_OS_WIN32 \<Rightarrow> GetDiskFreeSpaceEx os (toNativeSeparators path) = None
      | Q_OS_OTHER \<Rightarrow> True)"

section \<open>Byte streams\<close>

text \<open>
  \<open>QIODevice\<close> is the abstract byte stream of the application framework. The device
  model is that of a file: a device holds its bytes and a cursor, \<open>open\<close> succeeds or
  not as the device decides (\<open>opens\<close>), opening for writing truncates, reading takes
  bytes at the cursor, and writing appends. What one \<open>read\<close> or \<open>write\<close> call does is
  the device's choice as well: it fails (the call returns \<open>-1\<close>), or it transfers at
  most so many bytes (possibly fewer than asked for, possibly none). The choices for the
  successive calls are \<open>script\<close>; when the script is used up the device transfers all
  that is asked for. \<open>calls\<close> is the history of the calls made on the device.
\<close>

datatype OpenMode = ReadOnly | WriteOnly

datatype io_outcome = IOError | UpTo nat

datatype io_call = CallOpen OpenMode | CallSize | CallRead nat | CallWrite "byte list"

record QIODevice =
  opens :: bool
  is_open :: bool
  contents :: "byte list"
  cursor :: nat
  script :: "io_outcome list"
  calls :: "io_call list"

definition dev_open :: "OpenMode \<Rightarrow> QIODevice \<Rightarrow> bool \<times> QIODevice" where
  "dev_open mode dev =
     (if opens dev
      then (True, dev\<lparr>is_open := True,
                       contents := (if mode = WriteOnly then [] else contents dev),
                       cursor := 0,
                       calls := calls dev @ [CallOpen mode]\<rparr>)
      else (False, dev\<lparr>calls := calls dev @ [CallOpen mode]\<rparr>))"

definition dev_size :: "QIODevice \<Rightarrow> nat \<times> QIODevice" where
  "dev_size dev = (length (contents dev), dev\<lparr>calls := calls dev @ [CallSize]\<rparr>)"

text \<open>The outcome of the next call that asks for \<open>n\<close> bytes.\<close>

definition next_outcome :: "QIODevice \<Rightarrow> nat \<Rightarrow> io_outcome" where
  "next_outcome dev n = (case script dev of [] \<Rightarrow> UpTo n | x # _ \<Rightarrow> x)"

text \<open>
  \<open>read(data, maxSize)\<close>: \<open>None\<close> is the return value \<open>-1\<close>; otherwise the bytes that
  were stored at \<open>data\<close>, whose number is the return value.
\<close>

definition dev_read :: "nat \<Rightarrow> QIODevice \<Rightarrow> byte list option \<times> QIODevice" where
  "dev_read maxSize dev =
     (let dev1 = dev\<lparr>script := tl (script dev), calls := calls dev @ [CallRead maxSize]\<rparr>
      in case next_outcome dev maxSize of
           IOError \<Rightarrow> (None, dev1)
         | UpTo k \<Rightarrow>
             (let chunk = take (min k maxSize) (drop (cursor dev) (contents dev))
              in (Some chunk, dev1\<lparr>cursor := cursor dev + length chunk\<rparr>)))"

text \<open>
  \<open>write(data, maxSize)\<close>, given the \<open>maxSize\<close> bytes at \<open>data\<close>: \<open>None\<close> is the return
  value \<open>-1\<close>, otherwise the number of bytes written.
\<close>

definition dev_write :: "byte list \<Rightarrow> QIODevice \<Rightarrow> nat option \<times> QIODevice" where
  "dev_write buf dev =
     (let dev1 = dev\<lparr>script := tl (script dev), calls := calls dev @ [CallWrite buf]\<rparr>
      in case next_outcome dev (length buf) of
           IOError \<Rightarrow> (None, dev1)
         | UpTo k \<Rightarrow>
             (let chunk = take k buf
              in (Some (length chunk),
                  dev1\<lparr>contents := contents dev @ chunk,
                        cursor := cursor dev + length chunk\<rparr>)))"

section \<open>Utilities::Copy\<close>

text \<open>Storing a chunk in the buffer \<open>data\<close> from index \<open>pos\<close> on.\<close>

definition store :: "byte list \<Rightarrow> nat \<Rightarrow> byte list \<Rightarrow> byte list" where
  "store data pos chunk = take pos data @ chunk @ drop (pos + length chunk) data"

text \<open>
  The first \<open>do \<dots> while\<close> loop. The result is \<open>None\<close> where \<open>Copy\<close> returns \<open>false\<close>
  from inside the loop, and the buffer and \<open>pos\<close> at the exit of the loop otherwise.
  \<open>pos\<close> never exceeds \<open>bytes\<close> (a read returns at most what is asked for), so
  \<open>bytes - pos\<close> is the same number on \<open>nat\<close> as in the source.
\<close>

function read_loop ::
  "QIODevice \<Rightarrow> byte list \<Rightarrow> nat \<Rightarrow> nat \<Rightarrow> (byte list \<times> nat) option \<times> QIODevice" where
  "read_loop source data pos bytes =
     (case dev_read (bytes - pos) source of
        (None, source') \<Rightarrow> (None, source')
      | (Some chunk, source') \<Rightarrow>
          (let bytes_read = length chunk;
               data' = store data pos chunk;
               pos' = pos + bytes_read
           in if bytes_read > 0 \<and> pos' \<noteq> bytes
              then read_loop source' data' pos' bytes
              else (Some (data', pos'), source')))"
  by pat_completeness auto
termination
proof -
  have len: "\<And>n dev r dev'. dev_read n dev = (Some r, dev') \<Longrightarrow> length r \<le> n"
    by (auto simp: dev_read_def Let_def split: io_outcome.splits)
  have dec: "\<And>n bytes pos :: nat.
      0 < n \<Longrightarrow> n \<le> bytes - pos \<Longrightarrow> bytes - (pos + n) < bytes - pos"
    by arith
  show ?thesis
    apply (relation "measure (\<lambda>(dev, data, pos, bytes). bytes - pos)")
     apply simp
    apply (clarsimp dest!: sym [of "(_, _)" "dev_read _ _"])
    apply (frule len)
    apply (simp add: dec)
    done
qed

declare read_loop.simps [simp del]

text \<open>The second loop: \<open>False\<close> where \<open>Copy\<close> returns \<open>false\<close> from inside it.\<close>

function write_loop :: "QIODevice \<Rightarrow> byte list \<Rightarrow> nat \<Rightarrow> nat \<Rightarrow> bool \<times> QIODevice" where
  "write_loop destination data pos bytes =
     (case dev_write (take (bytes - pos) (drop pos data)) destination of
        (None, destination') \<Rightarrow> (False, destination')
      | (Some bytes_written, destination') \<Rightarrow>
          (let pos' = pos + bytes_written
           in if bytes_written > 0 \<and> pos' \<noteq> bytes
              then write_loop destination' data pos' bytes
              else (True, destination')))"
  by pat_completeness auto
termination
proof -
  have len: "\<And>buf dev r dev'. dev_write buf dev = (Some r, dev') \<Longrightarrow> r \<le> length buf"
    by (auto simp: dev_write_def Let_def split: io_outcome.splits)
  have dec: "\<And>n bytes pos :: nat.
      0 < n \<Longrightarrow> n \<le> bytes - pos \<Longrightarrow> bytes - (pos + n) < bytes - pos"
    by arith
  show ?thesis
    apply (relation "measure (\<lambda>(dev, data, pos, bytes). bytes - pos)")
     apply simp
    apply (clarsimp dest!: sym [of "(_, _)" "dev_write _ _"])
    apply (frule len)
    apply (simp add: dec)
    done
qed

declare write_loop.simps [simp del]

text \<open>
  \<open>Copy\<close> returns its \<open>bool\<close> and leaves the two devices changed. \<open>new char[bytes]\<close>
  is not initialised: \<open>uninit\<close> gives the byte that each index of the fresh array
  happens to hold.
\<close>

definition Copy :: "(nat \<Rightarrow> byte) \<Rightarrow> QIODevice \<Rightarrow> QIODevice \<Rightarrow> bool \<times> QIODevice \<times> QIODevice" where
  "Copy uninit source destination =
     (case dev_open ReadOnly source of
        (False, source1) \<Rightarrow> (False, source1, destination)
      | (True, source1) \<Rightarrow>
          (case dev_open WriteOnly destination of
             (False, destination1) \<Rightarrow> (False, source1, destination1)
           | (True, destination1) \<Rightarrow>
               (case dev_size source1 of
                  (bytes, source2) \<Rightarrow>
                    (let data = map uninit [0..<bytes]
                     in case read_loop source2 data 0 bytes of
                          (None, source3) \<Rightarrow> (False, source3, destination1)
                        | (Some (data', pos), source3) \<Rightarrow>
                            (case write_loop destination1 data' 0 bytes of
                               (False, destination2) \<Rightarrow> (False, source3, destination2)
                             | (True, destination2) \<Rightarrow> (True, source3, destination2))))))"

section \<open>The file system\<close>

text \<open>
  A file system is the list of its entries, each an absolute path with its kind, in the
  order in which a directory is enumerated. There are regular files and directories
  (no links and no special files), and every operation is permitted. A child of the
  directory \<open>dir\<close> is an entry whose path is \<open>dir\<close>, a slash and a name without a slash.
\<close>

datatype entry_kind = RegularFile | Directory

type_synonym filesystem = "(string \<times> entry_kind) list"

definition child_name :: "string \<Rightarrow> string \<Rightarrow> string option" where
  "child_name dir p =
     (let n = length dir + 1; name = drop n p
      in if take n p = dir @ ''/'' \<and> name \<noteq> [] \<and> CHR ''/'' \<notin> set name
         then Some name else None)"

text \<open>All the entries that a directory holds, whatever their kind and name.\<close>

definition entries :: "string \<Rightarrow> filesystem \<Rightarrow> string list" where
  "entries dir fs = List.map_filter (\<lambda>e. child_name dir (fst e)) fs"

text \<open>
  \<open>QDir::entryList\<close> with the \<open>QDir::Filter\<close> flags that occur. \<open>Dirs\<close> lists
  directories and \<open>Files\<close> files; the entries \<open>.\<close> and \<open>..\<close> of a directory are listed with
  the directories unless \<open>NoDotAndDotDot\<close> is given; a hidden entry (on Unix one whose
  name starts with a dot) is listed only when \<open>Hidden\<close> is given.
\<close>

datatype Filter = Dirs | Files | Hidden | NoDotAndDotDot

definition isHidden :: "string \<Rightarrow> bool" where
  "isHidden name = (take 1 name = ''.'')"

definition listed :: "Filter set \<Rightarrow> entry_kind \<Rightarrow> string \<Rightarrow> bool" where
  "listed filters kind name =
     ((case kind of Directory \<Rightarrow> Dirs \<in> filters | RegularFile \<Rightarrow> Files \<in> filters)
      \<and> (if isHidden name then Hidden \<in> filters else True))"

definition entryList :: "Filter set \<Rightarrow> string \<Rightarrow> filesystem \<Rightarrow> string list" where
  "entryList filters dir fs =
     (if Dirs \<in> filters \<and> NoDotAndDotDot \<notin> filters \<and> (dir, Directory) \<in> set fs
      then [''.'', ''..''] else [])
     @ List.map_filter
         (\<lambda>(p, kind). case child_name dir p of
                         None \<Rightarrow> None
                       | Some name \<Rightarrow> if listed filters kind name then Some name else None)
         fs"

text \<open>
  The state is the file system and the sequence of the removals asked of it so far.
  \<open>QFile::remove\<close> unlinks a regular file; \<open>rmdir\<close> removes a directory that holds no
  entry and fails on any other.
\<close>

datatype fs_op = OpRemove string | OpRmdir string

record fs_state =
  fs :: filesystem
  ops :: "fs_op list"

definition QFile_remove :: "string \<Rightarrow> fs_state \<Rightarrow> fs_state" where
  "QFile_remove p s =
     s\<lparr>fs := filter (\<lambda>e. e \<noteq> (p, RegularFile)) (fs s), ops := ops s @ [OpRemove p]\<rparr>"

definition QDir_rmdir :: "string \<Rightarrow> fs_state \<Rightarrow> fs_state" where
  "QDir_rmdir p s =
     s\<lparr>fs := (if entries p (fs s) = [] then filter (\<lambda>e. e \<noteq> (p, Directory)) (fs s)
               else fs s),
       ops := ops s @ [OpRmdir p]\<rparr>"

section \<open>Utilities::RemoveRecursive\<close>

text \<open>
  \<open>foreach\<close> evaluates the list once and runs the body on each element in turn. The body
  of the first loop is the recursive call, which may not return: \<open>None\<close>.
\<close>

primrec foreach :: "'a list \<Rightarrow> ('a \<Rightarrow> 's \<Rightarrow> 's) \<Rightarrow> 's \<Rightarrow> 's" where
  "foreach [] body s = s"
| "foreach (x # xs) body s = foreach xs body (body x s)"

primrec foreach_opt :: "'a list \<Rightarrow> ('a \<Rightarrow> 's \<Rightarrow> 's option) \<Rightarrow> 's \<Rightarrow> 's option" where
  "foreach_opt [] body s = Some s"
| "foreach_opt (x # xs) body s =
     (case body x s of None \<Rightarrow> None | Some s' \<Rightarrow> foreach_opt xs body s')"

text \<open>
  The recursion of \<open>RemoveRecursive\<close> is bounded by nothing in the source. The first
  argument is the depth of recursion that is available; the result is \<open>None\<close> when it
  does not suffice. \<open>path\<close> is absolute, so that \<open>dir.rmdir(path)\<close> names the directory
  \<open>path\<close> itself.
\<close>

fun RemoveRecursive :: "nat \<Rightarrow> string \<Rightarrow> fs_state \<Rightarrow> fs_state option" where
  "RemoveRecursive 0 path s = None"
| "RemoveRecursive (Suc depth) path s =
     (case foreach_opt (entryList {NoDotAndDotDot, Dirs} path (fs s))
             (\<lambda>child. RemoveRecursive depth (path @ ''/'' @ child)) s of
        None \<Rightarrow> None
      | Some s1 \<Rightarrow>
          Some (QDir_rmdir path
                  (foreach (entryList {NoDotAndDotDot, Files} path (fs s1))
                     (\<lambda>child. QFile_remove (path @ ''/'' @ child)) s1)))"

text \<open>
  Between a file system and a later one nothing was created, and every directory that
  is gone holds no entry.
\<close>

definition removed_when_empty :: "filesystem \<Rightarrow> filesystem \<Rightarrow> bool" where
  "removed_when_empty f f' =
     (set f' \<subseteq> set f
      \<and> (\<forall>q. (q, Directory) \<in> set f \<and> (q, Directory) \<notin> set f' \<longrightarrow> entries q f' = []))"

section \<open>Example inputs\<close>

text \<open>A Unix system with one volume, mounted at the root.\<close>

definition unix_one_volume :: operating_system where
  "unix_one_volume =
     \<lparr>os_platform = Q_OS_UNIX,
      statvfs = (\<lambda>p. if p = ''/'' then Some \<lparr>f_bsize = 4096, f_blocks = 1000, f_bavail = 250\<rparr>
                     else None),
      GetDiskFreeSpaceEx = (\<lambda>p. None)\<rparr>"

text \<open>
  Byte streams: a file of three bytes and a new file, both well-behaved; the same file
  behind a device that delivers two bytes and then reports the end of the stream; a
  destination that accepts one byte and then none; an empty stream on which reading
  fails, as reading past the end of a closed stream does; a stream that does not open.
  The fresh buffer of the examples holds the byte 255 everywhere.
\<close>

definition stale :: "nat \<Rightarrow> byte" where
  "stale i = 255"

definition file_abc :: QIODevice where
  "file_abc = \<lparr>opens = True, is_open = False, contents = [97, 98, 99], cursor = 0,
               script = [], calls = []\<rparr>"

definition file_new :: QIODevice where
  "file_new = \<lparr>opens = True, is_open = False, contents = [], cursor = 0,
               script = [], calls = []\<rparr>"




definition stream_empty_closed :: QIODevice where
  "stream_empty_closed = \<lparr>opens = True, is_open = False, contents = [], cursor = 0,
                          script = [IOError], calls = []\<rparr>"

definition file_missing :: QIODevice where
  "file_missing = \<lparr>opens = False, is_open = False, contents = [], cursor = 0,
                   script = [], calls = []\<rparr>"

text \<open>
  File systems: a directory with a file and a subdirectory that holds two files and an
  empty directory, and the state after its removal; a directory that holds one hidden
  file; a directory that holds a hidden subdirectory with a file in it, a hidden file and
  a file that is not hidden, and the state in which only the last is gone.
\<close>

definition tree_two_levels :: fs_state where
  "tree_two_levels =
     \<lparr>fs = [(''/tmp/t'', Directory), (''/tmp/t/a'', Directory),
            (''/tmp/t/a/x.mp3'', RegularFile), (''/tmp/t/a/y.mp3'', RegularFile),
            (''/tmp/t/a/e'', Directory), (''/tmp/t/f'', RegularFile)],
      ops = []\<rparr>"

definition tree_removed :: fs_state where
  "tree_removed =
     \<lparr>fs = [],
      ops = [OpRmdir ''/tmp/t/a/e'', OpRemove ''/tmp/t/a/x.mp3'', OpRemove ''/tmp/t/a/y.mp3'',
             OpRmdir ''/tmp/t/a'', OpRemove ''/tmp/t/f'', OpRmdir ''/tmp/t'']\<rparr>"

definition tree_with_dotfile :: fs_state where
  "tree_with_dotfile =
     \<lparr>fs = [(''/tmp/t'', Directory), (''/tmp/t/.directory'', RegularFile)], ops = []\<rparr>"

definition tree_with_hidden_children :: fs_state where
  "tree_with_hidden_children =
     \<lparr>fs = [(''/tmp/t'', Directory), (''/tmp/t/.git'', Directory),
            (''/tmp/t/.git/x'', RegularFile), (''/tmp/t/.hidden'', RegularFile),
            (''/tmp/t/a'', RegularFile)],
      ops = []\<rparr>"

definition tree_hidden_children_left :: fs_state where
  "tree_hidden_children_left =
     \<lparr>fs = [(''/tmp/t'', Directory), (''/tmp/t/.git'', Directory),
            (''/tmp/t/.git/x'', RegularFile), (''/tmp/t/.hidden'', RegularFile)],
      ops = [OpRemove ''/tmp/t/a'', OpRmdir ''/tmp/t'']\<rparr>"

section \<open>PrettyTime is even\<close>

lemma qAbs_minus: "qAbs (- s) = qAbs s"
proof (cases "sint s = - (2 ^ 31)")
  case True
  then have "word_of_int (sint s) = (word_of_int (- (2 ^ 31)) :: int32)"
    by simp
  then have "s = - 2147483648"
    by simp
  then show ?thesis
    by (simp add: qAbs_def)
next
  case False
  have "- (2 ^ 31) \<le> sint s" "sint s < 2 ^ 31"
    using sint_ge [of s] sint_lt [of s] by simp_all
  with False have neg: "sint (- s) = - sint s"
    by (simp add: sint_word_minus signed_take_bit_int_eq_self)
  show ?thesis
  proof (cases "s = 0")
    case True
    then show ?thesis by simp
  next
    case False
    then have "sint s \<noteq> 0"
      by (metis signed_eq_0_iff)
    with neg show ?thesis
      by (auto simp: qAbs_def word_sle_eq)
  qed
qed

text \<open>
  C9. For every \<open>int\<close> number of seconds \<open>s\<close>, \<open>PrettyTime(s)\<close> and \<open>PrettyTime(-s)\<close> are
  the same string: the result depends on the argument through \<open>qAbs\<close> only. (At the
  least \<open>int\<close> the negation wraps around to the same value.)
\<close>

theorem PrettyTime_minus: "PrettyTime (- s) = PrettyTime s"
  by (simp add: PrettyTime_def qAbs_minus)

theorem PrettyTime_minus_witness: "PrettyTime (- 125) = PrettyTime 125"
  using PrettyTime_minus [of 125] by simp

section \<open>The delay of DoInAMinuteOrSo\<close>

lemma smod_60_range: "0 \<le> (r::int) \<Longrightarrow> 0 \<le> r smod 60 \<and> r smod 60 < 60"
  by (simp add: signed_modulo_int_def sgn_if)

text \<open>
  C10. \<open>qrand()\<close> returns a value that is not negative. Then \<open>DoInAMinuteOrSo\<close> registers
  exactly one timer for the receiver's slot, whose delay is \<open>(60 + r)\<close> seconds for an
  \<open>r\<close> from 0 to 59: in milliseconds it lies between 60000 and 119000 inclusive.
\<close>

theorem DoInAMinuteOrSo_delay:
  assumes "0 \<le> qrand"
  shows "\<exists>r ms. 0 \<le> r \<and> r \<le> 59 \<and> ms = (60 + r) * 1000 \<and> 60000 \<le> ms \<and> ms \<le> 119000
    \<and> DoInAMinuteOrSo qrand rcv slt timers
        = timers @ [\<lparr>msec = ms, receiver = rcv, slot = slt\<rparr>]"
proof -
  from assms have "0 \<le> qrand smod 60" "qrand smod 60 \<le> 59"
    using smod_60_range [of qrand] by simp_all
  then show ?thesis
    by (simp add: DoInAMinuteOrSo_def DoAfter_def QTimer_singleShot_def kMsecPerSec_def Let_def)
qed

theorem DoInAMinuteOrSo_delay_witness:
  "(0::int) \<le> 1234567 \<and>
   (\<exists>r ms. 0 \<le> r \<and> r \<le> 59 \<and> ms = (60 + r) * 1000 \<and> 60000 \<le> ms \<and> ms \<le> 119000
      \<and> DoInAMinuteOrSo 1234567 1 ''Tick()'' []
          = [] @ [\<lparr>msec = ms, receiver = 1, slot = ''Tick()''\<rparr>])"
  using DoInAMinuteOrSo_delay [of 1234567 1 "''Tick()''" "[]"] by simp

section \<open>Failed file system queries\<close>

text \<open>
  C6. On every path on which the query of the operating system fails,
  \<open>FileSystemCapacity\<close> and \<open>FileSystemFreeSpace\<close> both return zero.
\<close>

theorem FileSystem_query_fails_zero:
  "os_query_fails os path \<Longrightarrow>
     FileSystemCapacity os path = 0 \<and> FileSystemFreeSpace os path = 0"
  by (auto simp: os_query_fails_def FileSystemCapacity_def FileSystemFreeSpace_def
      split: platform.splits)

theorem FileSystem_query_fails_zero_witness:
  "os_query_fails unix_one_volume ''/nonexistent''
   \<and> FileSystemCapacity unix_one_volume ''/nonexistent'' = 0
   \<and> FileSystemFreeSpace unix_one_volume ''/nonexistent'' = 0
   \<and> FileSystemCapacity unix_one_volume ''/'' = 4096000"
proof -
  have h: "os_query_fails unix_one_volume ''/nonexistent''"
    by (simp add: os_query_fails_def unix_one_volume_def)
  have "FileSystemCapacity unix_one_volume ''/'' = 4096000"
    by (simp add: FileSystemCapacity_def unix_one_volume_def)
  with h FileSystem_query_fails_zero [OF h] show ?thesis
    by simp
qed

section \<open>The read loop and the write loop\<close>

text \<open>One turn of each loop, and induction along the turns.\<close>

lemma read_loop_None:
  "dev_read (bytes - pos) source = (None, s') \<Longrightarrow> read_loop source data pos bytes = (None, s')"
  by (subst read_loop.simps) simp

lemma read_loop_again:
  "dev_read (bytes - pos) source = (Some chunk, s') \<Longrightarrow> chunk \<noteq> [] \<Longrightarrow>
   pos + length chunk \<noteq> bytes \<Longrightarrow>
   read_loop source data pos bytes
     = read_loop s' (store data pos chunk) (pos + length chunk) bytes"
  by (subst read_loop.simps) (simp add: Let_def)

lemma read_loop_exit:
  "dev_read (bytes - pos) source = (Some chunk, s') \<Longrightarrow>
   chunk = [] \<or> pos + length chunk = bytes \<Longrightarrow>
   read_loop source data pos bytes = (Some (store data pos chunk, pos + length chunk), s')"
  by (subst read_loop.simps) (auto simp add: Let_def)

lemma read_loop_induct [case_names step]:
  assumes "\<And>source data pos bytes.
     (\<And>chunk s'. dev_read (bytes - pos) source = (Some chunk, s') \<Longrightarrow> chunk \<noteq> [] \<Longrightarrow>
        pos + length chunk \<noteq> bytes \<Longrightarrow> P s' (store data pos chunk) (pos + length chunk) bytes)
     \<Longrightarrow> P source data pos bytes"
  shows "P source data pos bytes"
proof (induction source data pos bytes rule: read_loop.induct)
  case (1 source data pos bytes)
  show ?case
  proof (rule assms)
    fix chunk s'
    assume rd: "dev_read (bytes - pos) source = (Some chunk, s')"
      and ne: "chunk \<noteq> []" "pos + length chunk \<noteq> bytes"
    from ne have "0 < length chunk \<and> pos + length chunk \<noteq> bytes"
      by simp
    then show "P s' (store data pos chunk) (pos + length chunk) bytes"
      by (rule 1 [OF rd [symmetric] refl refl refl refl])
  qed
qed

lemma write_loop_False:
  "dev_write (take (bytes - pos) (drop pos data)) destination = (None, d') \<Longrightarrow>
   write_loop destination data pos bytes = (False, d')"
  by (subst write_loop.simps) simp

lemma write_loop_again:
  "dev_write (take (bytes - pos) (drop pos data)) destination = (Some n, d') \<Longrightarrow> 0 < n \<Longrightarrow>
   pos + n \<noteq> bytes \<Longrightarrow>
   write_loop destination data pos bytes = write_loop d' data (pos + n) bytes"
  by (subst write_loop.simps) (simp add: Let_def)

lemma write_loop_exit:
  "dev_write (take (bytes - pos) (drop pos data)) destination = (Some n, d') \<Longrightarrow>
   n = 0 \<or> pos + n = bytes \<Longrightarrow>
   write_loop destination data pos bytes = (True, d')"
  by (subst write_loop.simps) (auto simp add: Let_def)

lemma write_loop_induct [case_names step]:
  assumes "\<And>destination data pos bytes.
     (\<And>n d'. dev_write (take (bytes - pos) (drop pos data)) destination = (Some n, d') \<Longrightarrow>
        0 < n \<Longrightarrow> pos + n \<noteq> bytes \<Longrightarrow> P d' data (pos + n) bytes)
     \<Longrightarrow> P destination data pos bytes"
  shows "P destination data pos bytes"
proof (induction destination data pos bytes rule: write_loop.induct)
  case (1 destination data pos bytes)
  show ?case
  proof (rule assms)
    fix n d'
    assume wr: "dev_write (take (bytes - pos) (drop pos data)) destination = (Some n, d')"
      and ne: "0 < n" "pos + n \<noteq> bytes"
    from ne have "0 < n \<and> pos + n \<noteq> bytes"
      by simp
    then show "P d' data (pos + n) bytes"
      by (rule 1 [OF wr [symmetric] refl refl])
  qed
qed

text \<open>What one call does to the device.\<close>

lemma dev_read_is_open: "dev_read n dev = (r, dev') \<Longrightarrow> is_open dev' = is_open dev"
  by (auto simp: dev_read_def Let_def split: io_outcome.splits)

lemma dev_write_is_open: "dev_write buf dev = (r, dev') \<Longrightarrow> is_open dev' = is_open dev"
  by (auto simp: dev_write_def Let_def split: io_outcome.splits)








text \<open>Neither loop opens or closes a device.\<close>

lemma read_loop_is_open:
  "read_loop source data pos bytes = (r, source') \<Longrightarrow> is_open source' = is_open source"
proof (induction source data pos bytes rule: read_loop_induct)
  case (step source data pos bytes)
  obtain x s1 where rd: "dev_read (bytes - pos) source = (x, s1)"
    by (cases "dev_read (bytes - pos) source")
  note o = dev_read_is_open [OF rd]
  show ?case
  proof (cases x)
    case None
    with rd step.prems o show ?thesis
      by (simp add: read_loop_None)
  next
    case (Some chunk)
    show ?thesis
    proof (cases "chunk \<noteq> [] \<and> pos + length chunk \<noteq> bytes")
      case True
      with rd Some step.prems
      have "read_loop s1 (store data pos chunk) (pos + length chunk) bytes = (r, source')"
        by (simp add: read_loop_again)
      with step.IH [of chunk s1] rd Some True o show ?thesis
        by simp
    next
      case False
      with rd Some step.prems o show ?thesis
        by (simp add: read_loop_exit)
    qed
  qed
qed

lemma write_loop_is_open:
  "write_loop destination data pos bytes = (r, destination') \<Longrightarrow>
   is_open destination' = is_open destination"
proof (induction destination data pos bytes rule: write_loop_induct)
  case (step destination data pos bytes)
  let ?buf = "take (bytes - pos) (drop pos data)"
  obtain x d1 where wr: "dev_write ?buf destination = (x, d1)"
    by (cases "dev_write ?buf destination")
  note o = dev_write_is_open [OF wr]
  show ?case
  proof (cases x)
    case None
    with wr step.prems o show ?thesis
      by (simp add: write_loop_False)
  next
    case (Some n)
    show ?thesis
    proof (cases "0 < n \<and> pos + n \<noteq> bytes")
      case True
      with wr Some step.prems
      have "write_loop d1 data (pos + n) bytes = (r, destination')"
        by (simp add: write_loop_again)
      with step.IH [of n d1] wr Some True o show ?thesis
        by simp
    next
      case False
      with wr Some step.prems o show ?thesis
        by (auto simp: write_loop_exit)
    qed
  qed
qed











section \<open>Copy\<close>

text \<open>
  C4. When the source fails to open, \<open>Copy\<close> returns \<open>false\<close> and nothing is done to
  the destination: it is not opened and not written, its history of calls included.
  The only call made is the attempt to open the source.
\<close>

theorem Copy_source_fails_to_open:
  "\<not> opens source \<Longrightarrow>
     Copy uninit source destination
       = (False, source\<lparr>calls := calls source @ [CallOpen ReadOnly]\<rparr>, destination)"
  by (simp add: Copy_def dev_open_def)

theorem Copy_source_fails_to_open_witness:
  "\<not> opens file_missing
   \<and> Copy stale file_missing file_new
       = (False, file_missing\<lparr>calls := calls file_missing @ [CallOpen ReadOnly]\<rparr>, file_new)
   \<and> calls file_new = [] \<and> \<not> is_open file_new"
proof -
  have h: "\<not> opens file_missing"
    by (simp add: file_missing_def)
  from h Copy_source_fails_to_open [OF h, of stale file_new] show ?thesis
    by (simp add: file_new_def)
qed

text \<open>
  C3, as amended. \<open>Copy\<close> never closes a stream. On every exit path the source is open
  afterwards exactly if it was open before or its \<open>open\<close> succeeds, and the destination
  exactly if it was open before or both calls of \<open>open\<close> succeed.
\<close>

theorem Copy_never_closes:
  "is_open (fst (snd (Copy uninit source destination))) = (is_open source \<or> opens source)
   \<and> is_open (snd (snd (Copy uninit source destination)))
       = (is_open destination \<or> (opens source \<and> opens destination))"
  by (auto simp: Copy_def dev_open_def dev_size_def Let_def
      split: prod.splits option.splits bool.splits
      dest!: read_loop_is_open write_loop_is_open)

theorem Copy_never_closes_witness:
  "is_open (fst (snd (Copy stale stream_empty_closed file_new)))
   \<and> is_open (snd (snd (Copy stale stream_empty_closed file_new)))"
  using Copy_never_closes [of stale stream_empty_closed file_new]
  by (simp add: stream_empty_closed_def file_new_def)

text \<open>
  C3 as stated fails: after a successful copy of the three-byte file both streams are
  still open.
\<close>

theorem Copy_leaves_streams_open:
  "fst (Copy stale file_abc file_new)
   \<and> is_open (fst (snd (Copy stale file_abc file_new)))
   \<and> is_open (snd (snd (Copy stale file_abc file_new)))"
  by code_simp









section \<open>The removals of RemoveRecursive\<close>

lemma entries_empty_iff: "entries q f = [] \<longleftrightarrow> (\<forall>e\<in>set f. child_name q (fst e) = None)"
  by (induction f) (auto simp: entries_def List.map_filter_simps split: option.splits)

lemma removed_when_empty_refl: "removed_when_empty f f"
  by (simp add: removed_when_empty_def)

lemma removed_when_empty_trans:
  "removed_when_empty f f' \<Longrightarrow> removed_when_empty f' f'' \<Longrightarrow> removed_when_empty f f''"
  unfolding removed_when_empty_def entries_empty_iff by blast

lemma QFile_remove_removed_when_empty: "removed_when_empty (fs s) (fs (QFile_remove p s))"
  by (auto simp: removed_when_empty_def QFile_remove_def)

lemma QDir_rmdir_removed_when_empty: "removed_when_empty (fs s) (fs (QDir_rmdir p s))"
  by (auto simp: removed_when_empty_def QDir_rmdir_def entries_empty_iff)

lemma foreach_QFile_remove:
  "removed_when_empty (fs s) (fs (foreach xs (\<lambda>child. QFile_remove (path @ ''/'' @ child)) s))
   \<and> ops (foreach xs (\<lambda>child. QFile_remove (path @ ''/'' @ child)) s)
       = ops s @ map (\<lambda>child. OpRemove (path @ ''/'' @ child)) xs"
proof (induction xs arbitrary: s)
  case Nil
  show ?case by (simp add: removed_when_empty_refl)
next
  case (Cons x xs)
  from Cons [of "QFile_remove (path @ ''/'' @ x) s"]
    QFile_remove_removed_when_empty [of s "path @ ''/'' @ x"]
  show ?case
    by (auto intro: removed_when_empty_trans simp: QFile_remove_def)
qed

lemma foreach_opt_removed_when_empty:
  assumes IH: "\<And>p t t'. RemoveRecursive d p t = Some t' \<Longrightarrow> removed_when_empty (fs t) (fs t')"
  shows "foreach_opt dirs (\<lambda>child. RemoveRecursive d (path @ ''/'' @ child)) s = Some s1 \<Longrightarrow>
     removed_when_empty (fs s) (fs s1)"
proof (induction dirs arbitrary: s)
  case Nil
  then show ?case
    by (simp add: removed_when_empty_refl)
next
  case (Cons x xs)
  from Cons.prems obtain t where b: "RemoveRecursive d (path @ ''/'' @ x) s = Some t"
    and r: "foreach_opt xs (\<lambda>child. RemoveRecursive d (path @ ''/'' @ child)) t = Some s1"
    by (auto split: option.splits)
  from IH [OF b] Cons.IH [OF r] show ?case
    by (rule removed_when_empty_trans)
qed

lemma RemoveRecursive_Suc:
  "RemoveRecursive (Suc depth) path s = Some s' \<Longrightarrow>
   \<exists>s1. foreach_opt (entryList {NoDotAndDotDot, Dirs} path (fs s))
           (\<lambda>child. RemoveRecursive depth (path @ ''/'' @ child)) s = Some s1
     \<and> s' = QDir_rmdir path
              (foreach (entryList {NoDotAndDotDot, Files} path (fs s1))
                 (\<lambda>child. QFile_remove (path @ ''/'' @ child)) s1)"
  by (auto split: option.splits)

text \<open>
  Nothing is created, and no directory is removed while it holds an entry: every
  directory that is gone after the call holds none.
\<close>

lemma RemoveRecursive_removed_when_empty:
  "RemoveRecursive depth path s = Some s' \<Longrightarrow> removed_when_empty (fs s) (fs s')"
proof (induction depth arbitrary: path s s')
  case 0
  then show ?case by simp
next
  case (Suc depth)
  from RemoveRecursive_Suc [OF Suc.prems] obtain s1
    where s1: "foreach_opt (entryList {NoDotAndDotDot, Dirs} path (fs s))
        (\<lambda>child. RemoveRecursive depth (path @ ''/'' @ child)) s = Some s1"
      and s': "s' = QDir_rmdir path
              (foreach (entryList {NoDotAndDotDot, Files} path (fs s1))
                 (\<lambda>child. QFile_remove (path @ ''/'' @ child)) s1)"
    by blast
  let ?files = "entryList {NoDotAndDotDot, Files} path (fs s1)"
  let ?s2 = "foreach ?files (\<lambda>child. QFile_remove (path @ ''/'' @ child)) s1"
  have a: "removed_when_empty (fs s) (fs s1)"
    using Suc.IH s1 by (rule foreach_opt_removed_when_empty)
  from foreach_QFile_remove [of s1 ?files path] have b: "removed_when_empty (fs s1) (fs ?s2)"
    by simp
  from a b QDir_rmdir_removed_when_empty [of ?s2 path] s' show ?case
    by (auto intro: removed_when_empty_trans)
qed

text \<open>
  The removals of one call, for the children that the two listings return: what the
  recursive calls on the listed subdirectories ask comes first, then the removal of each
  listed file, and the \<open>rmdir\<close> of \<open>path\<close> is asked last.
\<close>

lemma RemoveRecursive_rmdir_last:
  assumes "RemoveRecursive (Suc depth) path s = Some s'"
  shows "\<exists>s1 :: fs_state.
       foreach_opt (entryList {NoDotAndDotDot, Dirs} path (fs s))
         (\<lambda>child. RemoveRecursive depth (path @ ''/'' @ child)) s = Some s1
     \<and> ops s' = ops s1
           @ map (\<lambda>child. OpRemove (path @ ''/'' @ child))
               (entryList {NoDotAndDotDot, Files} path (fs s1))
           @ [OpRmdir path]"
proof -
  from RemoveRecursive_Suc [OF assms] obtain s1
    where s1: "foreach_opt (entryList {NoDotAndDotDot, Dirs} path (fs s))
        (\<lambda>child. RemoveRecursive depth (path @ ''/'' @ child)) s = Some s1"
      and s': "s' = QDir_rmdir path
              (foreach (entryList {NoDotAndDotDot, Files} path (fs s1))
                 (\<lambda>child. QFile_remove (path @ ''/'' @ child)) s1)"
    by blast
  from foreach_QFile_remove [of s1 "entryList {NoDotAndDotDot, Files} path (fs s1)" path] s'
  have "ops s' = ops s1
           @ map (\<lambda>child. OpRemove (path @ ''/'' @ child))
               (entryList {NoDotAndDotDot, Files} path (fs s1))
           @ [OpRmdir path]"
    by (simp add: QDir_rmdir_def)
  with s1 show ?thesis
    by blast
qed

text \<open>The tree without hidden entries is removed whole, the innermost directory first.\<close>

lemma RemoveRecursive_two_levels:
  "RemoveRecursive 3 ''/tmp/t'' tree_two_levels = Some tree_removed"
  by code_simp

text \<open>
  \<open>RemoveRecursive\<close> returns on every file system of the model: a depth of recursion
  beyond the longest path suffices, and a greater depth does not change the result.
\<close>

lemma child_name_SomeD: "child_name dir p = Some name \<Longrightarrow> p = dir @ ''/'' @ name"
  by (auto simp: child_name_def Let_def split: if_splits)
     (metis append_take_drop_id append.assoc append_Cons append_Nil)

lemma entryList_member:
  "c \<in> set (entryList flt dir f) \<Longrightarrow> NoDotAndDotDot \<in> flt \<Longrightarrow>
   \<exists>k. (dir @ ''/'' @ c, k) \<in> set f"
  by (fastforce simp: entryList_def List.map_filter_def split: option.splits if_splits
      dest!: child_name_SomeD)

lemma foreach_opt_total:
  assumes "I s" and "\<And>x t. x \<in> set xs \<Longrightarrow> I t \<Longrightarrow> \<exists>t'. body x t = Some t' \<and> I t'"
  shows "\<exists>s1. foreach_opt xs body s = Some s1 \<and> I s1"
  using assms
proof (induction xs arbitrary: s)
  case Nil
  then show ?case by simp
next
  case (Cons x xs)
  from Cons.prems(2) [of x s] Cons.prems(1) obtain t where t: "body x s = Some t" "I t"
    by auto
  from Cons.IH [OF t(2)] Cons.prems(2) obtain s1 where "foreach_opt xs body t = Some s1" "I s1"
    by auto
  with t show ?case by simp
qed

lemma RemoveRecursive_returns_bounded:
  "\<forall>e\<in>set (fs s). length (fst e) \<le> depth + length path \<Longrightarrow>
   \<exists>s'. RemoveRecursive (Suc depth) path s = Some s'"
proof (induction depth arbitrary: path s)
  case 0
  have "entryList {NoDotAndDotDot, Dirs} path (fs s) = []"
  proof (rule ccontr)
    assume "entryList {NoDotAndDotDot, Dirs} path (fs s) \<noteq> []"
    then obtain c where "c \<in> set (entryList {NoDotAndDotDot, Dirs} path (fs s))"
      by (cases "entryList {NoDotAndDotDot, Dirs} path (fs s)") auto
    from entryList_member [OF this] obtain k where "(path @ ''/'' @ c, k) \<in> set (fs s)"
      by auto
    with 0 show False by fastforce
  qed
  then show ?case by simp
next
  case (Suc depth)
  let ?I = "\<lambda>t :: fs_state. set (fs t) \<subseteq> set (fs s)"
  have "\<exists>s1. foreach_opt (entryList {NoDotAndDotDot, Dirs} path (fs s))
          (\<lambda>child. RemoveRecursive (Suc depth) (path @ ''/'' @ child)) s = Some s1 \<and> ?I s1"
  proof (rule foreach_opt_total)
    show "?I s" by simp
  next
    fix c t
    assume c: "c \<in> set (entryList {NoDotAndDotDot, Dirs} path (fs s))" and t: "?I t"
    from t Suc.prems have "\<forall>e\<in>set (fs t). length (fst e) \<le> depth + length (path @ ''/'' @ c)"
      by fastforce
    from Suc.IH [OF this] obtain t'
      where t': "RemoveRecursive (Suc depth) (path @ ''/'' @ c) t = Some t'"
      by auto
    from RemoveRecursive_removed_when_empty [OF t'] t have "?I t'"
      by (auto simp: removed_when_empty_def)
    with t' show "\<exists>t'. RemoveRecursive (Suc depth) (path @ ''/'' @ c) t = Some t' \<and> ?I t'"
      by simp
  qed
  then show ?case by auto
qed

lemma length_le_total: "e \<in> set f \<Longrightarrow> length (fst e) \<le> sum_list (map (length \<circ> fst) f)"
  by (induction f) auto

lemma RemoveRecursive_returns: "\<exists>depth s'. RemoveRecursive depth path s = Some s'"
proof -
  have "\<forall>e\<in>set (fs s). length (fst e) \<le> sum_list (map (length \<circ> fst) (fs s)) + length path"
    by (auto dest!: length_le_total simp: trans_le_add1)
  from RemoveRecursive_returns_bounded [OF this] show ?thesis
    by blast
qed

lemma foreach_opt_mono:
  "foreach_opt xs body s = Some s' \<Longrightarrow> (\<And>x t t'. body x t = Some t' \<Longrightarrow> body' x t = Some t') \<Longrightarrow>
   foreach_opt xs body' s = Some s'"
  by (induction xs arbitrary: s) (auto split: option.splits)

lemma RemoveRecursive_deeper:
  "RemoveRecursive depth path s = Some s' \<Longrightarrow> RemoveRecursive (Suc depth) path s = Some s'"
proof (induction depth arbitrary: path s s')
  case 0
  then show ?case by simp
next
  case (Suc depth)
  from RemoveRecursive_Suc [OF Suc.prems] obtain s1
    where s1: "foreach_opt (entryList {NoDotAndDotDot, Dirs} path (fs s))
        (\<lambda>child. RemoveRecursive depth (path @ ''/'' @ child)) s = Some s1"
      and s': "s' = QDir_rmdir path
              (foreach (entryList {NoDotAndDotDot, Files} path (fs s1))
                 (\<lambda>child. QFile_remove (path @ ''/'' @ child)) s1)"
    by blast
  from foreach_opt_mono [OF s1, of "\<lambda>child. RemoveRecursive (Suc depth) (path @ ''/'' @ child)"]
    Suc.IH
  have "foreach_opt (entryList {NoDotAndDotDot, Dirs} path (fs s))
        (\<lambda>child. RemoveRecursive (Suc depth) (path @ ''/'' @ child)) s = Some s1"
    by (simp del: RemoveRecursive.simps)
  with s' show ?case
    by (subst RemoveRecursive.simps(2)) (simp del: RemoveRecursive.simps)
qed

text \<open>The listings of the directory with hidden children show the one file \<open>a\<close>.\<close>

lemma entryList_hidden_children:
  "entryList {NoDotAndDotDot, Dirs} ''/tmp/t'' (fs tree_with_hidden_children) = []"
  "entryList {NoDotAndDotDot, Files} ''/tmp/t'' (fs tree_with_hidden_children) = [''a'']"
  by (simp_all add: tree_with_hidden_children_def entryList_def List.map_filter_simps
      child_name_def listed_def isHidden_def)

text \<open>
  C5 fails on the code. The claim is about every child other than \<open>.\<close> and \<open>..\<close>; both
  listings of the source lack \<open>QDir::Hidden\<close>, so hidden children are not processed. On
  the directory that holds the hidden subdirectory \<open>.git\<close> with a file in it, the hidden
  file \<open>.hidden\<close> and the file \<open>a\<close>, at any depth of recursion, the call never recurses
  into \<open>.git\<close> and never deletes \<open>.hidden\<close>: it deletes \<open>a\<close> and then asks the \<open>rmdir\<close> of
  the directory, with three of its entries unprocessed and still in place.
\<close>

theorem RemoveRecursive_skips_hidden_children:
  "RemoveRecursive (Suc depth) ''/tmp/t'' tree_with_hidden_children
     = Some tree_hidden_children_left"
proof -
  have "foreach [''a''] (\<lambda>child. QFile_remove (''/tmp/t'' @ ''/'' @ child))
          tree_with_hidden_children
      = \<lparr>fs = fs tree_hidden_children_left, ops = [OpRemove ''/tmp/t/a'']\<rparr>"
    by (simp add: tree_with_hidden_children_def tree_hidden_children_left_def QFile_remove_def)
  moreover have "entries ''/tmp/t'' (fs tree_hidden_children_left) \<noteq> []"
    by (simp add: tree_hidden_children_left_def entries_def List.map_filter_simps
        child_name_def)
  ultimately show ?thesis
    by (simp add: entryList_hidden_children QDir_rmdir_def tree_hidden_children_left_def)
qed

text \<open>Neither listing of the source shows the hidden file.\<close>

lemma entryList_dotfile:
  "entryList {NoDotAndDotDot, k} ''/tmp/t''
     [(''/tmp/t'', Directory), (''/tmp/t/.directory'', RegularFile)] = []"
  by (simp add: entryList_def List.map_filter_simps child_name_def listed_def isHidden_def)

text \<open>
  C2 fails on the code. \<open>entryList\<close> is called without \<open>QDir::Hidden\<close>, so a hidden
  entry is neither recursed into nor deleted, and the \<open>rmdir\<close> of its directory fails:
  with every operation permitted, and at any depth of recursion, the directory that
  holds one hidden file is left as it was.
\<close>

theorem RemoveRecursive_leaves_hidden:
  "RemoveRecursive (Suc depth) ''/tmp/t'' tree_with_dotfile
     = Some (tree_with_dotfile\<lparr>ops := [OpRmdir ''/tmp/t'']\<rparr>)"
  by (simp add: tree_with_dotfile_def entryList_dotfile QDir_rmdir_def entries_def
      List.map_filter_simps child_name_def)

end
